theory Spec2Isabelle
  imports Main "HOL-Library.Multiset"
begin

section \<open>Quote requests on a flat file: the model of server.js\<close>

text \<open>
  The server keeps every quote request in one JSON file, reads the whole file at the start of
  each request and writes the whole array back after each mutation. The model passes the
  file explicitly: every handler takes the file and returns its reply together with the
  file it leaves behind.

  Whatever the handler obtains from outside the program is an argument: the library
  validators of validator.js, the generated uuid, the clock readings, and whether the write
  to disk succeeds or where it fails.

  The two rate limiters sit in front of the handlers and answer 429 on their own; the
  handlers below are what runs for a request that the limiters have let through. Requests
  are served one at a time.
\<close>

subsection \<open>Strings\<close>

text \<open>
  A JavaScript string is a sequence of UTF-16 code units. Code units are natural numbers
  here; \<open>js\<close> turns an ASCII literal into its code units.
\<close>

type_synonym jsstring = "nat list"

definition js :: "string \<Rightarrow> jsstring" where
  "js s = map of_char s"

subsection \<open>Records and the data file\<close>

text \<open>
  The object built as \<open>newQuote\<close>. The two timestamps are written with
  \<open>new Date().toISOString()\<close>; the model keeps the instant in milliseconds that the
  ISO string denotes and that \<open>new Date(string)\<close> gives back.
\<close>

record quote =
  quote_id :: jsstring
  name :: jsstring
  email :: jsstring
  phone :: jsstring
  company :: jsstring
  projectType :: jsstring
  budget :: jsstring
  timeline :: jsstring
  description :: jsstring
  status :: jsstring
  createdAt :: int
  updatedAt :: int

text \<open>
  \<open>DATA_FILE\<close>: either it cannot be read as JSON (missing, unreadable, malformed), or it
  holds an array of records. Startup writes \<open>[]\<close> when the file does not exist.
\<close>

datatype data_file = Unreadable | Holds "quote list"

definition initial_file :: data_file where
  "initial_file = Holds []"

datatype exn = ReadError | WriteError

text \<open>\<open>fs.readJsonSync(DATA_FILE)\<close> returns the parsed array or throws.\<close>

fun readJsonSync :: "data_file \<Rightarrow> exn + quote list" where
  "readJsonSync Unreadable = Inl ReadError"
| "readJsonSync (Holds quotes) = Inr quotes"

text \<open>
  \<open>readQuotes\<close>: the body is one \<open>try\<close>, its \<open>catch\<close> logs and returns \<open>[]\<close>.
  The result keeps the exceptional branch in its type so that its absence is a theorem.
\<close>

definition readQuotes :: "data_file \<Rightarrow> exn + quote list" where
  "readQuotes f =
     (case readJsonSync f of
        Inr quotes \<Rightarrow> Inr quotes
      | Inl error \<Rightarrow> Inr [])"

text \<open>
  What one request draws from its environment: the value of \<open>uuidv4()\<close>, the first and the
  second reading of \<open>new Date()\<close>, whether \<open>fs.writeJsonSync\<close> succeeds, and, when it
  throws, at which step of the write it does.
\<close>

datatype write_fault = At_open | Mid_write | At_close

record world =
  uuid :: jsstring
  clock1 :: int
  clock2 :: int
  disk_ok :: bool
  fault :: write_fault

text \<open>
  \<open>fs.writeJsonSync(DATA_FILE, quotes, { spaces: 2 })\<close> renders the array as text, opens the
  file for writing, which empties it, writes the text and closes the file. What a write
  that throws leaves behind depends on the step that threw:
  \<^item> at the open, the file is as it was;
  \<^item> while writing, the file holds a proper prefix of the text, which no longer parses;
  \<^item> at the close, the file holds the whole text (a prefix that lacks only the final line
    break reads the same).
\<close>

fun left_by_throw :: "write_fault \<Rightarrow> data_file \<Rightarrow> quote list \<Rightarrow> data_file" where
  "left_by_throw At_open f quotes = f"
| "left_by_throw Mid_write f quotes = Unreadable"
| "left_by_throw At_close f quotes = Holds quotes"

text \<open>The file after the call, and its return or the exception it throws.\<close>

definition writeJsonSync :: "world \<Rightarrow> data_file \<Rightarrow> quote list \<Rightarrow> data_file \<times> (exn + unit)" where
  "writeJsonSync w f quotes =
     (if disk_ok w then (Holds quotes, Inr ())
      else (left_by_throw (fault w) f quotes, Inl WriteError))"

text \<open>
  \<open>writeQuotes\<close> returns \<open>true\<close> after the write and \<open>false\<close> from its \<open>catch\<close>,
  which only logs: the file stays as the write left it.
\<close>

definition writeQuotes :: "world \<Rightarrow> data_file \<Rightarrow> quote list \<Rightarrow> bool \<times> data_file" where
  "writeQuotes w f quotes =
     (case writeJsonSync w f quotes of
        (f', Inr returned) \<Rightarrow> (True, f')
      | (f', Inl error) \<Rightarrow> (False, f'))"

text \<open>The records a handler sees: the content of a readable file, nothing otherwise.\<close>

fun stored :: "data_file \<Rightarrow> quote list" where
  "stored Unreadable = []"
| "stored (Holds quotes) = quotes"

subsection \<open>What comes from outside the program\<close>

text \<open>
  The validators and sanitizers of validator.js whose definitions are long and not part of
  this repository, and the parsing done by \<open>new Date(string)\<close>, are parameters:
  \<open>isLength s lo hi\<close> is \<open>isLength({ min: lo, max: hi })\<close>, \<open>isMobilePhone\<close> is called
  with the locale \<open>'any'\<close>, and \<open>dateParse s\<close> is the time value of \<open>new Date(s)\<close>, with
  \<open>None\<close> for an invalid date (whose time value is \<open>NaN\<close>).
\<close>

record externals =
  isLength :: "jsstring \<Rightarrow> nat \<Rightarrow> nat \<Rightarrow> bool"
  isEmail :: "jsstring \<Rightarrow> bool"
  normalizeEmail :: "jsstring \<Rightarrow> jsstring"
  isMobilePhone :: "jsstring \<Rightarrow> bool"
  dateParse :: "jsstring \<Rightarrow> int option"

subsection \<open>Validation\<close>

text \<open>
  \<open>req.body\<close> of a submission. A required field that is absent reaches every validator
  as the empty string, so it is modelled as the empty string; \<open>company\<close> is
  \<open>.optional()\<close>, and \<open>None\<close> is \<open>undefined\<close>.
\<close>

record submission =
  req_name :: jsstring
  req_email :: jsstring
  req_phone :: jsstring
  req_company :: "jsstring option"
  req_projectType :: jsstring
  req_budget :: jsstring
  req_timeline :: jsstring
  req_description :: jsstring

text \<open>The code units that the regular expression class \<open>\s\<close> matches.\<close>

definition is_space :: "nat \<Rightarrow> bool" where
  "is_space c =
     ((9 \<le> c \<and> c \<le> 13) \<or> c = 32 \<or> c = 160 \<or> c = 5760 \<or> (8192 \<le> c \<and> c \<le> 8202) \<or>
      c = 8232 \<or> c = 8233 \<or> c = 8239 \<or> c = 8287 \<or> c = 12288 \<or> c = 65279)"

text \<open>The class \<open>a-zA-Z\<close>.\<close>

definition is_letter :: "nat \<Rightarrow> bool" where
  "is_letter c = ((65 \<le> c \<and> c \<le> 90) \<or> (97 \<le> c \<and> c \<le> 122))"

text \<open>The sanitizer \<open>.trim()\<close> removes the whitespace at both ends.\<close>

definition trim :: "jsstring \<Rightarrow> jsstring" where
  "trim s = rev (dropWhile is_space (rev (dropWhile is_space s)))"

text \<open>\<open>.matches(/^[a-zA-Z\s]+$/)\<close>: one or more code units, each a letter or whitespace.\<close>

definition matches_name :: "jsstring \<Rightarrow> bool" where
  "matches_name s = (s \<noteq> [] \<and> list_all (\<lambda>c. is_letter c \<or> is_space c) s)"

text \<open>\<open>.isIn(options)\<close>.\<close>

definition isIn :: "jsstring \<Rightarrow> string list \<Rightarrow> bool" where
  "isIn s options = List.member (map js options) s"

text \<open>One entry of \<open>errors.array()\<close>: the field and the message.\<close>

datatype verror = VError (param: jsstring) (msg: jsstring)

definition check :: "bool \<Rightarrow> string \<Rightarrow> string \<Rightarrow> verror list" where
  "check valid field message = (if valid then [] else [VError (js field) (js message)])"

text \<open>
  \<open>validateQuote\<close>: the eight chains in order. Each chain sanitizes the field, the
  sanitized value replaces the field in \<open>req.body\<close>, and every validator that fails on
  it adds an error. The chain of an absent \<open>company\<close> does not run.
\<close>

definition validateQuote :: "externals \<Rightarrow> submission \<Rightarrow> submission \<times> verror list" where
  "validateQuote ext b =
     (let name' = trim (req_name b);
          email' = trim (req_email b);
          phone' = trim (req_phone b);
          company' = map_option trim (req_company b);
          projectType' = trim (req_projectType b);
          budget' = trim (req_budget b);
          timeline' = trim (req_timeline b);
          description' = trim (req_description b)
      in (\<lparr>req_name = name',
           req_email = normalizeEmail ext email',
           req_phone = phone',
           req_company = company',
           req_projectType = projectType',
           req_budget = budget',
           req_timeline = timeline',
           req_description = description'\<rparr>,
          check (isLength ext name' 2 100) ''name''
            ''Name must be between 2 and 100 characters'' @
          check (matches_name name') ''name''
            ''Name can only contain letters and spaces'' @
          check (isEmail ext email') ''email''
            ''Please provide a valid email address'' @
          check (isMobilePhone ext phone') ''phone''
            ''Please provide a valid phone number'' @
          (case company' of
             None \<Rightarrow> []
           | Some c \<Rightarrow> check (isLength ext c 0 100) ''company''
               ''Company name must be less than 100 characters'') @
          check (isIn projectType' [''website'', ''ecommerce'', ''webapp'', ''mobile'', ''other''])
            ''projectType'' ''Please select a valid project type'' @
          check (isIn budget' [''under-5k'', ''5k-10k'', ''10k-25k'', ''25k-50k'', ''over-50k''])
            ''budget'' ''Please select a valid budget range'' @
          check (isIn timeline' [''asap'', ''1-month'', ''2-3-months'', ''3-6-months'', ''flexible''])
            ''timeline'' ''Please select a valid timeline'' @
          check (isLength ext description' 10 1000) ''description''
            ''Description must be between 10 and 1000 characters''))"

subsection \<open>Replies\<close>

record stats =
  total :: nat
  new :: nat
  reviewed :: nat
  contacted :: nat
  quoted :: nat
  accepted :: nat
  rejected :: nat

datatype response =
    Created jsstring
  | ValidationFailed "verror list"
  | SaveFailed
  | Listing "quote list" nat
  | Found quote
  | NotFound
  | InvalidStatus
  | Updated quote
  | UpdateFailed
  | Deleted
  | DeleteFailed
  | Statistics stats
  | SomethingWentWrong

text \<open>The HTTP status of each reply.\<close>

fun http_status :: "response \<Rightarrow> nat" where
  "http_status (Created i) = 201"
| "http_status (ValidationFailed errors) = 400"
| "http_status SaveFailed = 500"
| "http_status (Listing quotes n) = 200"
| "http_status (Found q) = 200"
| "http_status NotFound = 404"
| "http_status InvalidStatus = 400"
| "http_status (Updated q) = 200"
| "http_status UpdateFailed = 500"
| "http_status Deleted = 200"
| "http_status DeleteFailed = 500"
| "http_status (Statistics s) = 200"
| "http_status SomethingWentWrong = 500"

text \<open>
  What a handler leaves: its reply, the data file, and the records passed to
  \<open>sendQuoteNotification\<close> (whose own outcome the handler never looks at).
\<close>

record result =
  reply :: response
  disk :: data_file
  notified :: "quote list"

text \<open>An exception that escapes a handler reaches the error-handling middleware.\<close>

definition uncaught :: "data_file \<Rightarrow> result" where
  "uncaught f = \<lparr>reply = SomethingWentWrong, disk = f, notified = []\<rparr>"

subsection \<open>POST /api/quotes\<close>

text \<open>
  \<open>newQuote\<close>, built from the sanitized body; \<open>company || ''\<close> gives the empty string
  for an absent or empty company.
\<close>

definition newQuote :: "world \<Rightarrow> submission \<Rightarrow> quote" where
  "newQuote w b =
     \<lparr>quote_id = uuid w,
      name = req_name b,
      email = req_email b,
      phone = req_phone b,
      company = (case req_company b of None \<Rightarrow> [] | Some c \<Rightarrow> if c = [] then [] else c),
      projectType = req_projectType b,
      budget = req_budget b,
      timeline = req_timeline b,
      description = req_description b,
      status = js ''new'',
      createdAt = clock1 w,
      updatedAt = clock2 w\<rparr>"

text \<open>
  The handler behind \<open>quoteLimiter\<close> and \<open>validateQuote\<close>. The notification is sent
  only after a successful write, and its promise is dropped.
\<close>

definition post_quotes :: "externals \<Rightarrow> world \<Rightarrow> submission \<Rightarrow> data_file \<Rightarrow> result" where
  "post_quotes ext w body f =
     (case validateQuote ext body of
        (body', errors) \<Rightarrow>
          if errors \<noteq> [] then \<lparr>reply = ValidationFailed errors, disk = f, notified = []\<rparr>
          else
            (let q = newQuote w body' in
             case readQuotes f of
               Inl e \<Rightarrow> uncaught f
             | Inr quotes \<Rightarrow>
                 (case writeQuotes w f (quotes @ [q]) of
                    (written, f') \<Rightarrow>
                      if written
                      then \<lparr>reply = Created (quote_id q), disk = f', notified = [q]\<rparr>
                      else \<lparr>reply = SaveFailed, disk = f', notified = []\<rparr>)))"

subsection \<open>GET /api/quotes\<close>

text \<open>
  \<open>req.query\<close>: each parameter is absent or a string. \<open>sortBy\<close> and \<open>order\<close> take their
  defaults only when absent.
\<close>

record list_query =
  q_status :: "jsstring option"
  q_projectType :: "jsstring option"
  q_sortBy :: "jsstring option"
  q_order :: "jsstring option"

text \<open>\<open>status && status !== 'all'\<close>: an absent or empty parameter is falsy.\<close>

fun is_filter :: "jsstring option \<Rightarrow> bool" where
  "is_filter None = False"
| "is_filter (Some v) = (v \<noteq> [] \<and> v \<noteq> js ''all'')"

text \<open>
  The time value of \<open>new Date(a[sortBy])\<close>. A timestamp field gives its instant, any other
  field of the record is a string handed to the date parser, and a name that is no field
  of the record gives \<open>undefined\<close> (or a member inherited from \<open>Object.prototype\<close>),
  hence an invalid date.
\<close>

definition new_Date :: "externals \<Rightarrow> quote \<Rightarrow> jsstring \<Rightarrow> int option" where
  "new_Date ext a key =
     (if key = js ''createdAt'' then Some (createdAt a)
      else if key = js ''updatedAt'' then Some (updatedAt a)
      else if key = js ''id'' then dateParse ext (quote_id a)
      else if key = js ''name'' then dateParse ext (name a)
      else if key = js ''email'' then dateParse ext (email a)
      else if key = js ''phone'' then dateParse ext (phone a)
      else if key = js ''company'' then dateParse ext (company a)
      else if key = js ''projectType'' then dateParse ext (projectType a)
      else if key = js ''budget'' then dateParse ext (budget a)
      else if key = js ''timeline'' then dateParse ext (timeline a)
      else if key = js ''description'' then dateParse ext (description a)
      else if key = js ''status'' then dateParse ext (status a)
      else None)"

text \<open>Subtracting two dates; \<open>None\<close> is \<open>NaN\<close>.\<close>

fun date_minus :: "int option \<Rightarrow> int option \<Rightarrow> int option" where
  "date_minus (Some x) (Some y) = Some (x - y)"
| "date_minus x y = None"

text \<open>The comparison function handed to \<open>sort\<close>.\<close>

definition compare_quotes :: "externals \<Rightarrow> jsstring \<Rightarrow> jsstring \<Rightarrow> quote \<Rightarrow> quote \<Rightarrow> int option" where
  "compare_quotes ext sortBy order a b =
     (let aValue = new_Date ext a sortBy;
          bValue = new_Date ext b sortBy
      in if order = js ''desc'' then date_minus bValue aValue else date_minus aValue bValue)"

text \<open>
  \<open>Array.prototype.sort\<close> with a comparison function: a result of \<open>NaN\<close> counts as
  \<open>+0\<close>, and the sort is stable (ECMAScript 2019 and later). It is modelled as the
  stable insertion sort: for a consistent comparison function every stable sort returns
  the same array. For an inconsistent one (valid dates mixed with invalid ones) the
  language leaves the order to the implementation, and no statement below relies on it.
\<close>

definition sortCompare :: "('a \<Rightarrow> 'a \<Rightarrow> int option) \<Rightarrow> 'a \<Rightarrow> 'a \<Rightarrow> int" where
  "sortCompare comparefn x y = (case comparefn x y of None \<Rightarrow> 0 | Some v \<Rightarrow> v)"

fun sort_insert :: "('a \<Rightarrow> 'a \<Rightarrow> int option) \<Rightarrow> 'a \<Rightarrow> 'a list \<Rightarrow> 'a list" where
  "sort_insert comparefn x [] = [x]"
| "sort_insert comparefn x (y # ys) =
     (if sortCompare comparefn x y > 0 then y # sort_insert comparefn x ys else x # y # ys)"

fun js_sort :: "('a \<Rightarrow> 'a \<Rightarrow> int option) \<Rightarrow> 'a list \<Rightarrow> 'a list" where
  "js_sort comparefn [] = []"
| "js_sort comparefn (x # xs) = sort_insert comparefn x (js_sort comparefn xs)"

definition get_quotes :: "externals \<Rightarrow> list_query \<Rightarrow> data_file \<Rightarrow> result" where
  "get_quotes ext query f =
     (case readQuotes f of
        Inl e \<Rightarrow> uncaught f
      | Inr quotes \<Rightarrow>
          (let sortBy = (case q_sortBy query of None \<Rightarrow> js ''createdAt'' | Some v \<Rightarrow> v);
               order = (case q_order query of None \<Rightarrow> js ''desc'' | Some v \<Rightarrow> v);
               filtered1 =
                 (if is_filter (q_status query)
                  then filter (\<lambda>quote. Some (status quote) = q_status query) quotes
                  else quotes);
               filtered2 =
                 (if is_filter (q_projectType query)
                  then filter (\<lambda>quote. Some (projectType quote) = q_projectType query) filtered1
                  else filtered1);
               sorted = js_sort (compare_quotes ext sortBy order) filtered2
           in \<lparr>reply = Listing sorted (length sorted), disk = f, notified = []\<rparr>))"

subsection \<open>GET /api/quotes/:id\<close>

definition get_quote :: "jsstring \<Rightarrow> data_file \<Rightarrow> result" where
  "get_quote i f =
     (case readQuotes f of
        Inl e \<Rightarrow> uncaught f
      | Inr quotes \<Rightarrow>
          (case find (\<lambda>q. quote_id q = i) quotes of
             None \<Rightarrow> \<lparr>reply = NotFound, disk = f, notified = []\<rparr>
           | Some quote \<Rightarrow> \<lparr>reply = Found quote, disk = f, notified = []\<rparr>))"

subsection \<open>PATCH /api/quotes/:id/status\<close>

text \<open>\<open>findIndex\<close>, with \<open>None\<close> for \<open>-1\<close>.\<close>

fun findIndex :: "('a \<Rightarrow> bool) \<Rightarrow> 'a list \<Rightarrow> nat option" where
  "findIndex P [] = None"
| "findIndex P (x # xs) = (if P x then Some 0 else map_option Suc (findIndex P xs))"

definition statuses :: "jsstring list" where
  "statuses = map js [''new'', ''reviewed'', ''contacted'', ''quoted'', ''accepted'', ''rejected'']"

definition patch_status :: "world \<Rightarrow> jsstring \<Rightarrow> jsstring \<Rightarrow> data_file \<Rightarrow> result" where
  "patch_status w i newStatus f =
     (if \<not> List.member statuses newStatus
      then \<lparr>reply = InvalidStatus, disk = f, notified = []\<rparr>
      else
        (case readQuotes f of
           Inl e \<Rightarrow> uncaught f
         | Inr quotes \<Rightarrow>
             (case findIndex (\<lambda>q. quote_id q = i) quotes of
                None \<Rightarrow> \<lparr>reply = NotFound, disk = f, notified = []\<rparr>
              | Some quoteIndex \<Rightarrow>
                  (let quotes' = quotes[quoteIndex :=
                         (quotes ! quoteIndex)\<lparr>status := newStatus, updatedAt := clock1 w\<rparr>]
                   in case writeQuotes w f quotes' of
                        (written, f') \<Rightarrow>
                          if written
                          then \<lparr>reply = Updated (quotes' ! quoteIndex), disk = f', notified = []\<rparr>
                          else \<lparr>reply = UpdateFailed, disk = f', notified = []\<rparr>))))"

subsection \<open>DELETE /api/quotes/:id\<close>

definition delete_quote :: "world \<Rightarrow> jsstring \<Rightarrow> data_file \<Rightarrow> result" where
  "delete_quote w i f =
     (case readQuotes f of
        Inl e \<Rightarrow> uncaught f
      | Inr quotes \<Rightarrow>
          (case findIndex (\<lambda>q. quote_id q = i) quotes of
             None \<Rightarrow> \<lparr>reply = NotFound, disk = f, notified = []\<rparr>
           | Some quoteIndex \<Rightarrow>
               (let quotes' = take quoteIndex quotes @ drop (Suc quoteIndex) quotes
                in case writeQuotes w f quotes' of
                     (written, f') \<Rightarrow>
                       if written
                       then \<lparr>reply = Deleted, disk = f', notified = []\<rparr>
                       else \<lparr>reply = DeleteFailed, disk = f', notified = []\<rparr>)))"

subsection \<open>GET /api/stats\<close>

definition count_status :: "string \<Rightarrow> quote list \<Rightarrow> nat" where
  "count_status s quotes = length (filter (\<lambda>q. status q = js s) quotes)"

definition get_stats :: "data_file \<Rightarrow> result" where
  "get_stats f =
     (case readQuotes f of
        Inl e \<Rightarrow> uncaught f
      | Inr quotes \<Rightarrow>
          \<lparr>reply = Statistics
             \<lparr>total = length quotes,
              new = count_status ''new'' quotes,
              reviewed = count_status ''reviewed'' quotes,
              contacted = count_status ''contacted'' quotes,
              quoted = count_status ''quoted'' quotes,
              accepted = count_status ''accepted'' quotes,
              rejected = count_status ''rejected'' quotes\<rparr>,
           disk = f, notified = []\<rparr>)"

subsection \<open>Sequences of mutating requests\<close>

datatype request =
    Create world submission
  | UpdateStatus world jsstring jsstring
  | Delete world jsstring

fun handle :: "externals \<Rightarrow> request \<Rightarrow> data_file \<Rightarrow> result" where
  "handle ext (Create w body) f = post_quotes ext w body f"
| "handle ext (UpdateStatus w i newStatus) f = patch_status w i newStatus f"
| "handle ext (Delete w i) f = delete_quote w i f"

text \<open>The file after a sequence of requests, served one after the other.\<close>

fun run :: "externals \<Rightarrow> request list \<Rightarrow> data_file \<Rightarrow> data_file" where
  "run ext [] f = f"
| "run ext (r # rs) f = run ext rs (disk (handle ext r f))"

subsection \<open>Notions used in the statements\<close>


text \<open>
  \<open>fresh_uuids ext rs f\<close>: along the sequence \<open>rs\<close> served from the file \<open>f\<close>, every
  \<open>Create\<close> draws a uuid that no record stored at that moment has.
\<close>

fun fresh_uuids :: "externals \<Rightarrow> request list \<Rightarrow> data_file \<Rightarrow> bool" where
  "fresh_uuids ext [] f = True"
| "fresh_uuids ext (Create w body # rs) f =
     (uuid w \<notin> quote_id ` set (stored f) \<and>
      fresh_uuids ext rs (disk (handle ext (Create w body) f)))"
| "fresh_uuids ext (r # rs) f = fresh_uuids ext rs (disk (handle ext r f))"

text \<open>
  The filters in the specification's words: a filter that is omitted, empty or the
  sentinel \<open>all\<close> puts no constraint on a field, any other value requires equality; a
  record matches a query when it meets both filters.
\<close>

fun wanted :: "jsstring option \<Rightarrow> jsstring \<Rightarrow> bool" where
  "wanted None x = True"
| "wanted (Some v) x = (v = [] \<or> v = js ''all'' \<or> x = v)"

definition matching :: "list_query \<Rightarrow> quote \<Rightarrow> bool" where
  "matching query q =
     (wanted (q_status query) (status q) \<and> wanted (q_projectType query) (projectType q))"

text \<open>The property names of a stored record: the keys of \<open>newQuote\<close>.\<close>

definition quote_keys :: "string list" where
  "quote_keys = [''id'', ''name'', ''email'', ''phone'', ''company'', ''projectType'',
     ''budget'', ''timeline'', ''description'', ''status'', ''createdAt'', ''updatedAt'']"

subsection \<open>Example data\<close>

text \<open>
  Stand-ins for the library functions that answer as validator.js does on the strings of
  the examples below (ASCII strings, the address \<open>jane@example.com\<close>, the number
  \<open>+12025550123\<close>).
\<close>

definition example_ext :: externals where
  "example_ext =
     \<lparr>isLength = (\<lambda>s lo hi. lo \<le> length s \<and> length s \<le> hi),
      isEmail = (\<lambda>s. s = js ''jane@example.com''),
      normalizeEmail = (\<lambda>s. s),
      isMobilePhone = (\<lambda>s. s = js ''+12025550123''),
      dateParse = (\<lambda>s. None)\<rparr>"

definition example_world :: world where
  "example_world =
     \<lparr>uuid = js ''id-1'', clock1 = 1000, clock2 = 1001, disk_ok = True, fault = At_open\<rparr>"

definition example_submission :: submission where
  "example_submission =
     \<lparr>req_name = js ''Jane Roe'',
      req_email = js ''jane@example.com'',
      req_phone = js ''+12025550123'',
      req_company = None,
      req_projectType = js ''website'',
      req_budget = js ''under-5k'',
      req_timeline = js ''flexible'',
      req_description = js ''Need a 5-page brochure site for my bakery''\<rparr>"

definition example_quote :: quote where
  "example_quote =
     \<lparr>quote_id = js ''id-1'',
      name = js ''Jane Roe'',
      email = js ''jane@example.com'',
      phone = js ''+12025550123'',
      company = [],
      projectType = js ''website'',
      budget = js ''under-5k'',
      timeline = js ''flexible'',
      description = js ''Need a 5-page brochure site for my bakery'',
      status = js ''new'',
      createdAt = 1000,
      updatedAt = 1001\<rparr>"

definition example_quote2 :: quote where
  "example_quote2 =
     \<lparr>quote_id = js ''id-2'',
      name = js ''John Doe'',
      email = js ''john@example.com'',
      phone = js ''+12025550199'',
      company = js ''Doe Ltd'',
      projectType = js ''webapp'',
      budget = js ''5k-10k'',
      timeline = js ''asap'',
      description = js ''An internal dashboard for orders'',
      status = js ''reviewed'',
      createdAt = 2000,
      updatedAt = 2500\<rparr>"

section \<open>Properties\<close>

subsection \<open>Auxiliary facts\<close>

lemma readQuotes_stored: "readQuotes f = Inr (stored f)"
  by (cases f) (simp_all add: readQuotes_def)

lemma writeQuotes_if:
  "writeQuotes w f quotes =
     (if disk_ok w then (True, Holds quotes) else (False, left_by_throw (fault w) f quotes))"
  by (simp add: writeQuotes_def writeJsonSync_def)

lemma findIndex_None: "findIndex P xs = None \<longleftrightarrow> (\<forall>x \<in> set xs. \<not> P x)"
  by (induction xs) auto

lemma findIndex_Some:
  "findIndex P xs = Some k \<Longrightarrow> k < length xs \<and> P (xs ! k) \<and> (\<forall>j < k. \<not> P (xs ! j))"
proof (induction xs arbitrary: k)
  case Nil
  then show ?case by simp
next
  case (Cons x xs)
  show ?case
  proof (cases "P x")
    case True
    with Cons.prems show ?thesis by simp
  next
    case False
    with Cons.prems obtain k' where k': "findIndex P xs = Some k'" "k = Suc k'"
      by auto
    from Cons.IH [OF k'(1)] False k'(2) show ?thesis
      by (auto simp: less_Suc_eq_0_disj)
  qed
qed

lemma find_appended:
  "i \<notin> g ` set xs \<Longrightarrow> g q = i \<Longrightarrow> find (\<lambda>x. g x = i) (xs @ [q]) = Some q"
  by (induction xs) auto

lemma validateQuote_fst:
  "fst (validateQuote ext b) =
     \<lparr>req_name = trim (req_name b),
      req_email = normalizeEmail ext (trim (req_email b)),
      req_phone = trim (req_phone b),
      req_company = map_option trim (req_company b),
      req_projectType = trim (req_projectType b),
      req_budget = trim (req_budget b),
      req_timeline = trim (req_timeline b),
      req_description = trim (req_description b)\<rparr>"
  by (simp add: validateQuote_def Let_def)

lemma post_quotes_created:
  assumes "snd (validateQuote ext body) = []" and "disk_ok w"
  shows "post_quotes ext w body f =
     \<lparr>reply = Created (uuid w),
      disk = Holds (stored f @ [newQuote w (fst (validateQuote ext body))]),
      notified = [newQuote w (fst (validateQuote ext body))]\<rparr>"
  using assms
  by (cases "validateQuote ext body")
    (simp add: post_quotes_def readQuotes_stored writeQuotes_if Let_def newQuote_def)

lemma trim_js_examples:
  "trim (js ''Jane Roe'') = js ''Jane Roe''"
  "trim (js ''jane@example.com'') = js ''jane@example.com''"
  "trim (js ''+12025550123'') = js ''+12025550123''"
  "trim (js ''website'') = js ''website''"
  "trim (js ''under-5k'') = js ''under-5k''"
  "trim (js ''flexible'') = js ''flexible''"
  "trim (js ''Need a 5-page brochure site for my bakery'')
     = js ''Need a 5-page brochure site for my bakery''"
  by (simp_all add: trim_def js_def is_space_def)

lemma example_submission_valid:
  "validateQuote example_ext example_submission = (example_submission, [])"
  by (simp add: validateQuote_def example_submission_def example_ext_def Let_def
      trim_js_examples check_def isIn_def matches_name_def)
    (simp add: js_def is_letter_def is_space_def)

lemma example_newQuote: "newQuote example_world example_submission = example_quote"
  by (simp add: newQuote_def example_world_def example_submission_def example_quote_def)

subsection \<open>The store read\<close>

text \<open>
  Claim C8. \<open>readQuotes\<close> never hands an exception to its caller: for every state of the
  file it returns an array, and when the underlying \<open>readJsonSync\<close> throws, that array is
  the empty one (otherwise it is the array that was read).
\<close>

theorem readQuotes_total:
  "\<exists>quotes. readQuotes f = Inr quotes \<and>
     (case readJsonSync f of Inl e \<Rightarrow> quotes = [] | Inr read \<Rightarrow> quotes = read)"
  by (cases f) (simp_all add: readQuotes_def)

subsection \<open>Status updates\<close>

lemma patch_status_invalid:
  "\<not> List.member statuses s \<Longrightarrow>
     patch_status w i s f = \<lparr>reply = InvalidStatus, disk = f, notified = []\<rparr>"
  by (simp add: patch_status_def)

lemma patch_status_absent:
  assumes "List.member statuses s" and "i \<notin> quote_id ` set (stored f)"
  shows "patch_status w i s f = \<lparr>reply = NotFound, disk = f, notified = []\<rparr>"
proof -
  from assms(2) have "findIndex (\<lambda>q. quote_id q = i) (stored f) = None"
    by (auto simp: findIndex_None)
  with assms(1) show ?thesis
    by (simp add: patch_status_def readQuotes_stored)
qed

lemma patch_status_present:
  assumes "List.member statuses s" and "findIndex (\<lambda>q. quote_id q = i) (stored f) = Some k"
  shows "patch_status w i s f =
     (if disk_ok w
      then \<lparr>reply = Updated ((stored f ! k)\<lparr>status := s, updatedAt := clock1 w\<rparr>),
            disk = Holds ((stored f)[k := (stored f ! k)\<lparr>status := s, updatedAt := clock1 w\<rparr>]),
            notified = []\<rparr>
      else \<lparr>reply = UpdateFailed,
            disk = left_by_throw (fault w) f
              ((stored f)[k := (stored f ! k)\<lparr>status := s, updatedAt := clock1 w\<rparr>]),
            notified = []\<rparr>)"
proof -
  from findIndex_Some [OF assms(2)] have "k < length (stored f)" by simp
  with assms show ?thesis
    by (simp add: patch_status_def readQuotes_stored writeQuotes_if Let_def)
qed

text \<open>
  Claim C2. \<open>UpdateStatus\<close> on any file and any id:
  \<^item> a new status outside \<open>new, reviewed, contacted, quoted, accepted, rejected\<close> is
    answered with \<open>InvalidStatus\<close> (400) and the file, hence every record in it, is left
    as it was;
  \<^item> a status of the enumeration with an id that no stored record has is answered with
    \<open>NotFound\<close> (404), the file again untouched;
  \<^item> a status of the enumeration with an id that is present addresses the first record
    \<open>k\<close> with that id: when the write succeeds the file holds the same array with
    record \<open>k\<close> changed in \<open>status\<close> and \<open>updatedAt\<close> only, and the reply carries
    that updated record; when the write throws the reply is \<open>UpdateFailed\<close> (500) and
    the file is what the throwing write left.
\<close>

theorem patch_status_cases:
  "(s \<notin> set statuses \<longrightarrow>
      reply (patch_status w i s f) = InvalidStatus \<and>
      http_status (reply (patch_status w i s f)) = 400 \<and>
      disk (patch_status w i s f) = f) \<and>
   (s \<in> set statuses \<and> i \<notin> quote_id ` set (stored f) \<longrightarrow>
      reply (patch_status w i s f) = NotFound \<and>
      http_status (reply (patch_status w i s f)) = 404 \<and>
      disk (patch_status w i s f) = f) \<and>
   (s \<in> set statuses \<and> i \<in> quote_id ` set (stored f) \<longrightarrow>
      (\<exists>k < length (stored f).
          quote_id (stored f ! k) = i \<and> (\<forall>j < k. quote_id (stored f ! j) \<noteq> i) \<and>
          patch_status w i s f =
            (if disk_ok w
             then \<lparr>reply = Updated ((stored f ! k)\<lparr>status := s, updatedAt := clock1 w\<rparr>),
                   disk = Holds ((stored f)
                     [k := (stored f ! k)\<lparr>status := s, updatedAt := clock1 w\<rparr>]),
                   notified = []\<rparr>
             else \<lparr>reply = UpdateFailed,
                   disk = left_by_throw (fault w) f ((stored f)
                     [k := (stored f ! k)\<lparr>status := s, updatedAt := clock1 w\<rparr>]),
                   notified = []\<rparr>)))"
proof (intro conjI impI)
  assume "s \<notin> set statuses"
  then have "\<not> List.member statuses s" by simp
  from patch_status_invalid [OF this]
  show "reply (patch_status w i s f) = InvalidStatus"
    and "http_status (reply (patch_status w i s f)) = 400"
    and "disk (patch_status w i s f) = f"
    by simp_all
next
  assume a: "s \<in> set statuses \<and> i \<notin> quote_id ` set (stored f)"
  then have "List.member statuses s" by simp
  from patch_status_absent [OF this] a
  show "reply (patch_status w i s f) = NotFound"
    and "http_status (reply (patch_status w i s f)) = 404"
    and "disk (patch_status w i s f) = f"
    by simp_all
next
  assume a: "s \<in> set statuses \<and> i \<in> quote_id ` set (stored f)"
  then have m: "List.member statuses s" by simp
  from a have "findIndex (\<lambda>q. quote_id q = i) (stored f) \<noteq> None"
    by (auto simp: findIndex_None)
  then obtain k where k: "findIndex (\<lambda>q. quote_id q = i) (stored f) = Some k"
    by auto
  from findIndex_Some [OF k] patch_status_present [OF m k]
  show "\<exists>k < length (stored f).
          quote_id (stored f ! k) = i \<and> (\<forall>j < k. quote_id (stored f ! j) \<noteq> i) \<and>
          patch_status w i s f =
            (if disk_ok w
             then \<lparr>reply = Updated ((stored f ! k)\<lparr>status := s, updatedAt := clock1 w\<rparr>),
                   disk = Holds ((stored f)
                     [k := (stored f ! k)\<lparr>status := s, updatedAt := clock1 w\<rparr>]),
                   notified = []\<rparr>
             else \<lparr>reply = UpdateFailed,
                   disk = left_by_throw (fault w) f ((stored f)
                     [k := (stored f ! k)\<lparr>status := s, updatedAt := clock1 w\<rparr>]),
                   notified = []\<rparr>)"
    by blast
qed

theorem patch_status_cases_witness:
  "reply (patch_status example_world (js ''id-1'') (js ''archived'') (Holds [example_quote]))
     = InvalidStatus \<and>
   disk (patch_status example_world (js ''id-1'') (js ''archived'') (Holds [example_quote]))
     = Holds [example_quote] \<and>
   reply (patch_status example_world (js ''id-2'') (js ''quoted'') (Holds [example_quote]))
     = NotFound \<and>
   patch_status example_world (js ''id-1'') (js ''quoted'') (Holds [example_quote]) =
     \<lparr>reply = Updated (example_quote\<lparr>status := js ''quoted'', updatedAt := 1000\<rparr>),
      disk = Holds [example_quote\<lparr>status := js ''quoted'', updatedAt := 1000\<rparr>],
      notified = []\<rparr>"
proof -
  let ?f = "Holds [example_quote]"
  have a: "js ''archived'' \<notin> set statuses"
    by (simp add: statuses_def js_def)
  have q: "js ''quoted'' \<in> set statuses"
    by (simp add: statuses_def)
  have absent: "js ''id-2'' \<notin> quote_id ` set (stored ?f)"
    by (simp add: example_quote_def js_def)
  have present: "js ''id-1'' \<in> quote_id ` set (stored ?f)"
    by (simp add: example_quote_def)
  from a patch_status_cases [where s = "js ''archived''" and w = example_world and i = "js ''id-1''" and f = ?f]
  have 1: "reply (patch_status example_world (js ''id-1'') (js ''archived'') ?f) = InvalidStatus"
    and 2: "disk (patch_status example_world (js ''id-1'') (js ''archived'') ?f) = ?f"
    by simp_all
  from q absent patch_status_cases [where s = "js ''quoted''" and w = example_world and i = "js ''id-2''" and f = ?f]
  have 3: "reply (patch_status example_world (js ''id-2'') (js ''quoted'') ?f) = NotFound"
    by simp
  from q present patch_status_cases [where s = "js ''quoted''" and w = example_world and i = "js ''id-1''" and f = ?f]
  have 4: "patch_status example_world (js ''id-1'') (js ''quoted'') ?f =
     \<lparr>reply = Updated (example_quote\<lparr>status := js ''quoted'', updatedAt := 1000\<rparr>),
      disk = Holds [example_quote\<lparr>status := js ''quoted'', updatedAt := 1000\<rparr>],
      notified = []\<rparr>"
    by (simp add: example_world_def)
  from 1 2 3 4 show ?thesis by simp
qed

subsection \<open>Deletion\<close>

lemma splice_distinct:
  "distinct (map g xs) \<Longrightarrow> findIndex (\<lambda>q. g q = x) xs = Some k \<Longrightarrow>
     take k xs @ drop (Suc k) xs = filter (\<lambda>q. g q \<noteq> x) xs"
proof (induction xs arbitrary: k)
  case Nil
  then show ?case by simp
next
  case (Cons y ys)
  show ?case
  proof (cases "g y = x")
    case True
    with Cons.prems have "k = 0" by simp
    moreover from True Cons.prems(1) have "x \<notin> g ` set ys" by simp
    then have "\<forall>q \<in> set ys. g q \<noteq> x" by blast
    ultimately show ?thesis using True by simp
  next
    case False
    with Cons.prems obtain k' where k': "findIndex (\<lambda>q. g q = x) ys = Some k'" "k = Suc k'"
      by auto
    from Cons.prems have "distinct (map g ys)" by simp
    from Cons.IH [OF this k'(1)] False k'(2) show ?thesis by simp
  qed
qed

lemma delete_quote_absent:
  assumes "i \<notin> quote_id ` set (stored f)"
  shows "delete_quote w i f = \<lparr>reply = NotFound, disk = f, notified = []\<rparr>"
proof -
  from assms have "findIndex (\<lambda>q. quote_id q = i) (stored f) = None"
    by (auto simp: findIndex_None)
  then show ?thesis
    by (simp add: delete_quote_def readQuotes_stored)
qed

lemma delete_quote_present:
  assumes "findIndex (\<lambda>q. quote_id q = i) (stored f) = Some k"
  shows "delete_quote w i f =
     (if disk_ok w
      then \<lparr>reply = Deleted, disk = Holds (take k (stored f) @ drop (Suc k) (stored f)),
            notified = []\<rparr>
      else \<lparr>reply = DeleteFailed,
            disk = left_by_throw (fault w) f (take k (stored f) @ drop (Suc k) (stored f)),
            notified = []\<rparr>)"
  using assms by (simp add: delete_quote_def readQuotes_stored writeQuotes_if Let_def)

text \<open>
  Claim C5, as amended. In a store whose ids are unique and that holds a record with id
  \<open>x\<close>, \<open>Delete x\<close> twice in a row: when the first write succeeds, the first call
  answers \<open>Deleted\<close> (200) and leaves the file holding the array without the record, and
  the second call, whatever its environment, answers \<open>NotFound\<close> (404) and leaves that
  file as it is. When the first write throws, the first call answers \<open>DeleteFailed\<close>
  (500) and the file is what the throwing write left. (Ids stay unique as long as every
  \<open>Create\<close> draws a fresh uuid: \<open>run_distinct\<close> below.)
\<close>

theorem delete_twice:
  assumes "distinct (map quote_id (stored f))" and "x \<in> quote_id ` set (stored f)"
  shows "if disk_ok w1
     then reply (delete_quote w1 x f) = Deleted \<and>
          http_status (reply (delete_quote w1 x f)) = 200 \<and>
          disk (delete_quote w1 x f) = Holds (filter (\<lambda>q. quote_id q \<noteq> x) (stored f)) \<and>
          reply (delete_quote w2 x (disk (delete_quote w1 x f))) = NotFound \<and>
          http_status (reply (delete_quote w2 x (disk (delete_quote w1 x f)))) = 404 \<and>
          disk (delete_quote w2 x (disk (delete_quote w1 x f))) = disk (delete_quote w1 x f)
     else reply (delete_quote w1 x f) = DeleteFailed \<and>
          http_status (reply (delete_quote w1 x f)) = 500 \<and>
          disk (delete_quote w1 x f) =
            left_by_throw (fault w1) f (filter (\<lambda>q. quote_id q \<noteq> x) (stored f))"
proof -
  from assms(2) have "findIndex (\<lambda>q. quote_id q = x) (stored f) \<noteq> None"
    by (auto simp: findIndex_None)
  then obtain k where k: "findIndex (\<lambda>q. quote_id q = x) (stored f) = Some k"
    by auto
  let ?rest = "filter (\<lambda>q. quote_id q \<noteq> x) (stored f)"
  have first: "delete_quote w1 x f =
     (if disk_ok w1 then \<lparr>reply = Deleted, disk = Holds ?rest, notified = []\<rparr>
      else \<lparr>reply = DeleteFailed, disk = left_by_throw (fault w1) f ?rest, notified = []\<rparr>)"
    using delete_quote_present [OF k] splice_distinct [OF assms(1) k] by simp
  have "x \<notin> quote_id ` set (stored (Holds ?rest))"
    by auto
  from delete_quote_absent [OF this]
  have second: "delete_quote w2 x (Holds ?rest) = \<lparr>reply = NotFound, disk = Holds ?rest, notified = []\<rparr>" .
  show ?thesis
  proof (cases "disk_ok w1")
    case True
    with first second show ?thesis by simp
  next
    case False
    with first show ?thesis by simp
  qed
qed

theorem delete_twice_witness:
  "reply (delete_quote example_world (js ''id-1'') (Holds [example_quote, example_quote2]))
     = Deleted \<and>
   disk (delete_quote example_world (js ''id-1'') (Holds [example_quote, example_quote2]))
     = Holds [example_quote2] \<and>
   reply (delete_quote example_world (js ''id-1'')
       (disk (delete_quote example_world (js ''id-1'') (Holds [example_quote, example_quote2]))))
     = NotFound \<and>
   disk (delete_quote example_world (js ''id-1'')
       (disk (delete_quote example_world (js ''id-1'') (Holds [example_quote, example_quote2]))))
     = Holds [example_quote2]"
proof -
  let ?f = "Holds [example_quote, example_quote2]"
  have d: "distinct (map quote_id (stored ?f))"
    by (simp add: example_quote_def example_quote2_def js_def)
  have p: "js ''id-1'' \<in> quote_id ` set (stored ?f)"
    by (simp add: example_quote_def)
  have ok: "disk_ok example_world" by (simp add: example_world_def)
  have rest: "filter (\<lambda>q. quote_id q \<noteq> js ''id-1'') (stored ?f) = [example_quote2]"
    by (simp add: example_quote_def example_quote2_def js_def)
  note t = delete_twice [OF d p, of example_world example_world, unfolded if_P [OF ok] rest]
  from t have "disk (delete_quote example_world (js ''id-1'') ?f) = Holds [example_quote2]"
    by simp
  with t show ?thesis by simp
qed

text \<open>
  Claim C5 as first stated, for every store that holds a record with id \<open>x\<close>, fails on a
  store where two records carry that id: \<open>findIndex\<close> and \<open>splice\<close> remove the first
  of them only, and the second \<open>Delete\<close> succeeds again. Two \<open>Create\<close> requests that draw
  the same uuid build such a store, since the handler appends without looking at the ids
  present.
\<close>

theorem delete_twice_counterexample:
  "run example_ext
     [Create example_world example_submission, Create example_world example_submission]
     initial_file = Holds [example_quote, example_quote] \<and>
   js ''id-1'' \<in> quote_id ` set (stored (Holds [example_quote, example_quote])) \<and>
   reply (delete_quote example_world (js ''id-1'') (Holds [example_quote, example_quote]))
     = Deleted \<and>
   reply (delete_quote example_world (js ''id-1'')
       (disk (delete_quote example_world (js ''id-1'') (Holds [example_quote, example_quote]))))
     = Deleted \<and>
   Deleted \<noteq> NotFound"
proof -
  have v: "snd (validateQuote example_ext example_submission) = []"
    by (simp add: example_submission_valid)
  have ok: "disk_ok example_world" by (simp add: example_world_def)
  have u: "uuid example_world = js ''id-1''" by (simp add: example_world_def)
  have c: "\<And>f. disk (post_quotes example_ext example_world example_submission f)
      = Holds (stored f @ [example_quote])"
    by (simp add: post_quotes_created [OF v ok] example_submission_valid example_newQuote)
  have r: "run example_ext
     [Create example_world example_submission, Create example_world example_submission]
     initial_file = Holds [example_quote, example_quote]"
    by (simp add: c initial_file_def)
  have 0: "findIndex (\<lambda>q. quote_id q = js ''id-1'') (stored (Holds [example_quote, example_quote]))
      = Some 0"
    by (simp add: example_quote_def)
  have 1: "findIndex (\<lambda>q. quote_id q = js ''id-1'') (stored (Holds [example_quote])) = Some 0"
    by (simp add: example_quote_def)
  have d1: "delete_quote example_world (js ''id-1'') (Holds [example_quote, example_quote])
      = \<lparr>reply = Deleted, disk = Holds [example_quote], notified = []\<rparr>"
    using delete_quote_present [OF 0, of example_world] ok by simp
  have d2: "delete_quote example_world (js ''id-1'') (Holds [example_quote])
      = \<lparr>reply = Deleted, disk = Holds [], notified = []\<rparr>"
    using delete_quote_present [OF 1, of example_world] ok by simp
  have p: "js ''id-1'' \<in> quote_id ` set (stored (Holds [example_quote, example_quote]))"
    by (simp add: example_quote_def)
  from r p d1 d2 show ?thesis by simp
qed

subsection \<open>Refused names\<close>

lemma validateQuote_name_error:
  assumes "\<not> matches_name (trim (req_name body))"
  shows "VError (js ''name'') (js ''Name can only contain letters and spaces'')
           \<in> set (snd (validateQuote ext body))"
  using assms by (simp add: validateQuote_def Let_def check_def)

lemma post_quotes_invalid:
  assumes "snd (validateQuote ext body) \<noteq> []"
  shows "post_quotes ext w body f =
     \<lparr>reply = ValidationFailed (snd (validateQuote ext body)), disk = f, notified = []\<rparr>"
  using assms by (cases "validateQuote ext body") (simp add: post_quotes_def)

text \<open>
  Claim C10. A submission whose trimmed name contains a code unit that is neither an ASCII
  letter nor whitespace is refused by \<open>Create\<close>, whatever the length check says: the reply
  is the validation failure (400), its errors include the one on the field \<open>name\<close> with
  the message of the \<open>matches\<close> rule, the file is untouched and nothing is notified.
\<close>

theorem post_quotes_name_rejected:
  assumes "\<exists>c \<in> set (trim (req_name body)). \<not> is_letter c \<and> \<not> is_space c"
  shows "\<exists>errors.
     post_quotes ext w body f = \<lparr>reply = ValidationFailed errors, disk = f, notified = []\<rparr> \<and>
     http_status (reply (post_quotes ext w body f)) = 400 \<and>
     VError (js ''name'') (js ''Name can only contain letters and spaces'') \<in> set errors"
proof -
  from assms have "\<not> matches_name (trim (req_name body))"
    by (auto simp: matches_name_def list_all_iff)
  from validateQuote_name_error [OF this, of ext]
  have e: "VError (js ''name'') (js ''Name can only contain letters and spaces'')
             \<in> set (snd (validateQuote ext body))" .
  then have "snd (validateQuote ext body) \<noteq> []" by auto
  from post_quotes_invalid [OF this, of w f] e show ?thesis by simp
qed

theorem post_quotes_name_rejected_witness:
  "\<exists>errors.
     post_quotes example_ext example_world (example_submission\<lparr>req_name := js ''Jean-Luc''\<rparr>)
       initial_file = \<lparr>reply = ValidationFailed errors, disk = initial_file, notified = []\<rparr> \<and>
     VError (js ''name'') (js ''Name can only contain letters and spaces'') \<in> set errors"
proof -
  have "45 \<in> set (trim (js ''Jean-Luc''))"
    by (simp add: trim_def js_def is_space_def)
  moreover have "\<not> is_letter 45 \<and> \<not> is_space 45"
    by (simp add: is_letter_def is_space_def)
  ultimately have "\<exists>c \<in> set (trim (req_name (example_submission\<lparr>req_name := js ''Jean-Luc''\<rparr>))).
      \<not> is_letter c \<and> \<not> is_space c"
    by auto
  from post_quotes_name_rejected [OF this, of example_ext example_world initial_file]
  show ?thesis by blast
qed

subsection \<open>A failed write on creation\<close>

lemma post_quotes_write_fails:
  assumes "snd (validateQuote ext body) = []" and "\<not> disk_ok w"
  shows "post_quotes ext w body f =
     \<lparr>reply = SaveFailed,
      disk = left_by_throw (fault w) f (stored f @ [newQuote w (fst (validateQuote ext body))]),
      notified = []\<rparr>"
  using assms
  by (cases "validateQuote ext body")
    (simp add: post_quotes_def readQuotes_stored writeQuotes_if Let_def)

text \<open>
  Claim C7, as amended. When a submission passes validation and the write of the collection
  throws, \<open>Create\<close> answers \<open>SaveFailed\<close> (500) and notifies nobody, and the handler
  writes nothing more: the file is what the throwing write left. When the write threw
  before the file was opened, the file is the one from before the call, so \<open>Get\<close> and
  \<open>List\<close> answer afterwards exactly as they did before.
\<close>

theorem post_quotes_write_failure:
  assumes "snd (validateQuote ext body) = []" and "\<not> disk_ok w"
  shows "reply (post_quotes ext w body f) = SaveFailed \<and>
     http_status (reply (post_quotes ext w body f)) = 500 \<and>
     notified (post_quotes ext w body f) = [] \<and>
     disk (post_quotes ext w body f) =
       left_by_throw (fault w) f (stored f @ [newQuote w (fst (validateQuote ext body))]) \<and>
     (fault w = At_open \<longrightarrow>
        disk (post_quotes ext w body f) = f \<and>
        (\<forall>i. get_quote i (disk (post_quotes ext w body f)) = get_quote i f) \<and>
        (\<forall>query. get_quotes ext query (disk (post_quotes ext w body f))
                  = get_quotes ext query f))"
  using post_quotes_write_fails [OF assms, of f] by simp

theorem post_quotes_write_failure_witness:
  "reply (post_quotes example_ext (example_world\<lparr>uuid := js ''id-3'', disk_ok := False\<rparr>)
      example_submission (Holds [example_quote])) = SaveFailed \<and>
   disk (post_quotes example_ext (example_world\<lparr>uuid := js ''id-3'', disk_ok := False\<rparr>)
      example_submission (Holds [example_quote])) = Holds [example_quote] \<and>
   get_quote (js ''id-3'')
     (disk (post_quotes example_ext (example_world\<lparr>uuid := js ''id-3'', disk_ok := False\<rparr>)
        example_submission (Holds [example_quote])))
     = get_quote (js ''id-3'') (Holds [example_quote])"
proof -
  let ?w = "example_world\<lparr>uuid := js ''id-3'', disk_ok := False\<rparr>"
  have v: "snd (validateQuote example_ext example_submission) = []"
    by (simp add: example_submission_valid)
  have w: "\<not> disk_ok ?w"
    by simp
  have o: "fault ?w = At_open"
    by (simp add: example_world_def)
  from post_quotes_write_failure [OF v w, of "Holds [example_quote]"] o
  have "reply (post_quotes example_ext ?w example_submission (Holds [example_quote])) = SaveFailed"
    and "disk (post_quotes example_ext ?w example_submission (Holds [example_quote]))
      = Holds [example_quote]"
    by simp_all
  then show ?thesis by simp
qed

text \<open>
  Claim C7 as first stated, with the persisted store left as it was, fails when the write
  throws after the file has been opened: the open has emptied the file, the \<open>catch\<close> of
  \<open>writeQuotes\<close> only logs and returns \<open>false\<close>, and the record that \<open>Get\<close> found
  before the call is gone after it. Nothing in the program writes to a temporary file or
  restores the old content.
\<close>

theorem post_quotes_write_failure_counterexample:
  "snd (validateQuote example_ext example_submission) = [] \<and>
   \<not> disk_ok (example_world\<lparr>uuid := js ''id-3'', disk_ok := False, fault := Mid_write\<rparr>) \<and>
   reply (post_quotes example_ext
       (example_world\<lparr>uuid := js ''id-3'', disk_ok := False, fault := Mid_write\<rparr>)
       example_submission (Holds [example_quote])) = SaveFailed \<and>
   disk (post_quotes example_ext
       (example_world\<lparr>uuid := js ''id-3'', disk_ok := False, fault := Mid_write\<rparr>)
       example_submission (Holds [example_quote])) = Unreadable \<and>
   Unreadable \<noteq> Holds [example_quote] \<and>
   reply (get_quote (js ''id-1'') (Holds [example_quote])) = Found example_quote \<and>
   reply (get_quote (js ''id-1'')
       (disk (post_quotes example_ext
          (example_world\<lparr>uuid := js ''id-3'', disk_ok := False, fault := Mid_write\<rparr>)
          example_submission (Holds [example_quote])))) = NotFound"
proof -
  let ?w = "example_world\<lparr>uuid := js ''id-3'', disk_ok := False, fault := Mid_write\<rparr>"
  have v: "snd (validateQuote example_ext example_submission) = []"
    by (simp add: example_submission_valid)
  have w: "\<not> disk_ok ?w"
    by simp
  have p: "post_quotes example_ext ?w example_submission (Holds [example_quote])
      = \<lparr>reply = SaveFailed, disk = Unreadable, notified = []\<rparr>"
    using post_quotes_write_fails [OF v w, of "Holds [example_quote]"] by simp
  have before: "reply (get_quote (js ''id-1'') (Holds [example_quote])) = Found example_quote"
    by (simp add: get_quote_def readQuotes_stored example_quote_def)
  have after: "reply (get_quote (js ''id-1'') Unreadable) = NotFound"
    by (simp add: get_quote_def readQuotes_stored)
  from v w p before after show ?thesis by simp
qed

subsection \<open>What a request leaves in the file\<close>

lemma left_by_throw_cases:
  "left_by_throw ft f quotes = f \<or> left_by_throw ft f quotes = Unreadable \<or>
   left_by_throw ft f quotes = Holds quotes"
  by (cases ft) simp_all

lemma post_quotes_disk:
  assumes "disk (post_quotes ext w body f) \<noteq> Unreadable"
  shows "disk (post_quotes ext w body f) = f \<or>
   disk (post_quotes ext w body f) = Holds (stored f @ [newQuote w (fst (validateQuote ext body))])"
proof (cases "snd (validateQuote ext body) = []")
  case False
  from post_quotes_invalid [OF this] show ?thesis by simp
next
  case True
  show ?thesis
  proof (cases "disk_ok w")
    case ok: True
    from post_quotes_created [OF True ok, of f] show ?thesis by simp
  next
    case False
    from post_quotes_write_fails [OF True False, of f] assms
      left_by_throw_cases [of "fault w" f "stored f @ [newQuote w (fst (validateQuote ext body))]"]
    show ?thesis by auto
  qed
qed

lemma patch_status_outcomes:
  "disk (patch_status w i s f) = f \<or>
   (\<not> disk_ok w \<and> disk (patch_status w i s f) = Unreadable) \<or>
   (\<exists>k < length (stored f). s \<in> set statuses \<and> quote_id (stored f ! k) = i \<and>
      disk (patch_status w i s f) =
        Holds ((stored f)[k := (stored f ! k)\<lparr>status := s, updatedAt := clock1 w\<rparr>]))"
proof (cases "List.member statuses s")
  case False
  then show ?thesis by (simp add: patch_status_invalid)
next
  case True
  show ?thesis
  proof (cases "findIndex (\<lambda>q. quote_id q = i) (stored f)")
    case None
    then have "i \<notin> quote_id ` set (stored f)"
      by (auto simp: findIndex_None)
    from patch_status_absent [OF True this] show ?thesis by simp
  next
    case (Some k)
    from findIndex_Some [OF Some] patch_status_present [OF True Some, of w] True
      left_by_throw_cases [of "fault w" f
        "(stored f)[k := (stored f ! k)\<lparr>status := s, updatedAt := clock1 w\<rparr>]"]
    show ?thesis by (cases "disk_ok w") auto
  qed
qed

lemma patch_status_disk:
  assumes "disk (patch_status w i s f) \<noteq> Unreadable"
  shows "disk (patch_status w i s f) = f \<or>
   (\<exists>k < length (stored f). s \<in> set statuses \<and> quote_id (stored f ! k) = i \<and>
      disk (patch_status w i s f) =
        Holds ((stored f)[k := (stored f ! k)\<lparr>status := s, updatedAt := clock1 w\<rparr>]))"
  using patch_status_outcomes [of w i s f] assms by blast

lemma delete_quote_disk:
  assumes "disk (delete_quote w i f) \<noteq> Unreadable"
  shows "disk (delete_quote w i f) = f \<or>
   (\<exists>k < length (stored f).
      disk (delete_quote w i f) = Holds (take k (stored f) @ drop (Suc k) (stored f)))"
proof (cases "findIndex (\<lambda>q. quote_id q = i) (stored f)")
  case None
  then have "i \<notin> quote_id ` set (stored f)"
    by (auto simp: findIndex_None)
  from delete_quote_absent [OF this] show ?thesis by simp
next
  case (Some k)
  from findIndex_Some [OF Some] delete_quote_present [OF Some, of w] assms
    left_by_throw_cases [of "fault w" f "take k (stored f) @ drop (Suc k) (stored f)"]
  show ?thesis by (cases "disk_ok w") auto
qed

subsection \<open>Unique ids\<close>

text \<open>
  The handlers never compare a new id with the ids present. Ids stay unique along a
  sequence of requests exactly as far as \<open>uuidv4()\<close> keeps returning fresh values.
\<close>

lemma distinct_splice:
  assumes "distinct (map g xs)"
  shows "distinct (map g (take k xs @ drop (Suc k) xs))"
proof -
  let ?ys = "map g xs"
  from assms have "distinct (take k ?ys @ drop k ?ys)" by simp
  then have 1: "distinct (take k ?ys)" and 2: "set (take k ?ys) \<inter> set (drop k ?ys) = {}"
    by (simp_all only: distinct_append)
  from assms have 3: "distinct (drop (Suc k) ?ys)" by simp
  have "set (drop (Suc k) ?ys) \<subseteq> set (drop k ?ys)"
    by (rule set_drop_subset_set_drop) simp
  with 2 have "set (take k ?ys) \<inter> set (drop (Suc k) ?ys) = {}" by blast
  with 1 3 have "distinct (take k ?ys @ drop (Suc k) ?ys)" by simp
  then show ?thesis by (simp add: take_map drop_map)
qed

lemma handle_distinct:
  assumes "distinct (map quote_id (stored f))"
    and "\<And>w body. r = Create w body \<Longrightarrow> uuid w \<notin> quote_id ` set (stored f)"
  shows "distinct (map quote_id (stored (disk (handle ext r f))))"
proof (cases "disk (handle ext r f) = Unreadable")
  case True
  then show ?thesis by simp
next
  case readable: False
  show ?thesis
  proof (cases r)
    case (Create w body)
    with readable have "disk (post_quotes ext w body f) \<noteq> Unreadable" by simp
    from post_quotes_disk [OF this] assms(1) assms(2) [OF Create] Create show ?thesis
      by (auto simp: newQuote_def)
  next
    case (UpdateStatus w i s)
    with readable have "disk (patch_status w i s f) \<noteq> Unreadable" by simp
    from patch_status_disk [OF this] show ?thesis
    proof
      assume "disk (patch_status w i s f) = f"
      with assms(1) UpdateStatus show ?thesis by simp
    next
      assume "\<exists>k < length (stored f). s \<in> set statuses \<and> quote_id (stored f ! k) = i \<and>
        disk (patch_status w i s f) =
          Holds ((stored f)[k := (stored f ! k)\<lparr>status := s, updatedAt := clock1 w\<rparr>])"
      then obtain k where k: "k < length (stored f)"
        "disk (patch_status w i s f) =
          Holds ((stored f)[k := (stored f ! k)\<lparr>status := s, updatedAt := clock1 w\<rparr>])"
        by blast
      have "map quote_id ((stored f)[k := (stored f ! k)\<lparr>status := s, updatedAt := clock1 w\<rparr>])
          = map quote_id (stored f)"
        using k(1) by (simp add: map_update list_update_same_conv)
      with assms(1) k(2) UpdateStatus show ?thesis by simp
    qed
  next
    case (Delete w i)
    with readable have "disk (delete_quote w i f) \<noteq> Unreadable" by simp
    from delete_quote_disk [OF this] show ?thesis
    proof
      assume "disk (delete_quote w i f) = f"
      with assms(1) Delete show ?thesis by simp
    next
      assume "\<exists>k < length (stored f).
        disk (delete_quote w i f) = Holds (take k (stored f) @ drop (Suc k) (stored f))"
      then obtain k where
        k: "disk (delete_quote w i f) = Holds (take k (stored f) @ drop (Suc k) (stored f))"
        by blast
      from distinct_splice [OF assms(1), of k] k Delete show ?thesis by simp
    qed
  qed
qed

lemma run_distinct:
  "distinct (map quote_id (stored f)) \<Longrightarrow> fresh_uuids ext rs f \<Longrightarrow>
     distinct (map quote_id (stored (run ext rs f)))"
proof (induction rs arbitrary: f)
  case Nil
  then show ?case by simp
next
  case (Cons r rs)
  have step: "distinct (map quote_id (stored (disk (handle ext r f))))"
  proof (rule handle_distinct [OF Cons.prems(1)])
    fix w body
    assume "r = Create w body"
    with Cons.prems(2) show "uuid w \<notin> quote_id ` set (stored f)" by simp
  qed
  from Cons.prems(2) have "fresh_uuids ext rs (disk (handle ext r f))"
    by (cases r) simp_all
  from Cons.IH [OF step this] show ?case by simp
qed

subsection \<open>Statistics\<close>

lemma new_in_statuses: "js ''new'' \<in> set statuses"
  by (simp add: statuses_def)

lemma handle_statuses:
  assumes "\<forall>q \<in> set (stored f). status q \<in> set statuses"
  shows "\<forall>q \<in> set (stored (disk (handle ext r f))). status q \<in> set statuses"
proof (cases "disk (handle ext r f) = Unreadable")
  case True
  then show ?thesis by simp
next
  case readable: False
  show ?thesis
  proof (cases r)
  case (Create w body)
  with readable have "disk (post_quotes ext w body f) \<noteq> Unreadable" by simp
  from post_quotes_disk [OF this] assms Create show ?thesis
    by (auto simp: newQuote_def new_in_statuses)
next
  case (UpdateStatus w i s)
  with readable have "disk (patch_status w i s f) \<noteq> Unreadable" by simp
  from patch_status_disk [OF this] show ?thesis
  proof
    assume "disk (patch_status w i s f) = f"
    with assms UpdateStatus show ?thesis by simp
  next
    assume "\<exists>k < length (stored f). s \<in> set statuses \<and> quote_id (stored f ! k) = i \<and>
      disk (patch_status w i s f) =
        Holds ((stored f)[k := (stored f ! k)\<lparr>status := s, updatedAt := clock1 w\<rparr>])"
    then obtain k where k: "s \<in> set statuses"
      "disk (patch_status w i s f) =
        Holds ((stored f)[k := (stored f ! k)\<lparr>status := s, updatedAt := clock1 w\<rparr>])"
      by blast
    have "\<forall>q \<in> set ((stored f)[k := (stored f ! k)\<lparr>status := s, updatedAt := clock1 w\<rparr>]).
        status q \<in> set statuses"
    proof
      fix q
      assume "q \<in> set ((stored f)[k := (stored f ! k)\<lparr>status := s, updatedAt := clock1 w\<rparr>])"
      then have "q = (stored f ! k)\<lparr>status := s, updatedAt := clock1 w\<rparr> \<or> q \<in> set (stored f)"
        using set_update_subset_insert by fastforce
      with assms k(1) show "status q \<in> set statuses" by auto
    qed
    with k(2) UpdateStatus show ?thesis by simp
  qed
next
  case (Delete w i)
  with readable have "disk (delete_quote w i f) \<noteq> Unreadable" by simp
  from delete_quote_disk [OF this] show ?thesis
  proof
    assume "disk (delete_quote w i f) = f"
    with assms Delete show ?thesis by simp
  next
    assume "\<exists>k < length (stored f).
      disk (delete_quote w i f) = Holds (take k (stored f) @ drop (Suc k) (stored f))"
    then obtain k where
      k: "disk (delete_quote w i f) = Holds (take k (stored f) @ drop (Suc k) (stored f))"
      by blast
    have "set (take k (stored f) @ drop (Suc k) (stored f)) \<subseteq> set (stored f)"
      using set_take_subset set_drop_subset by fastforce
    with assms k Delete show ?thesis by auto
  qed
qed
qed

lemma run_statuses:
  "\<forall>q \<in> set (stored f). status q \<in> set statuses \<Longrightarrow>
   \<forall>q \<in> set (stored (run ext rs f)). status q \<in> set statuses"
proof (induction rs arbitrary: f)
  case Nil
  then show ?case by simp
next
  case (Cons r rs)
  from Cons.IH [OF handle_statuses [OF Cons.prems]] show ?case by simp
qed

lemma count_statuses:
  "\<forall>q \<in> set quotes. status q \<in> set statuses \<Longrightarrow>
   length quotes =
     count_status ''new'' quotes + count_status ''reviewed'' quotes +
     count_status ''contacted'' quotes + count_status ''quoted'' quotes +
     count_status ''accepted'' quotes + count_status ''rejected'' quotes"
proof (induction quotes)
  case Nil
  then show ?case by (simp add: count_status_def)
next
  case (Cons q quotes)
  from Cons.prems have "status q \<in> set statuses" by simp
  then consider "status q = js ''new''" | "status q = js ''reviewed''"
    | "status q = js ''contacted''" | "status q = js ''quoted''"
    | "status q = js ''accepted''" | "status q = js ''rejected''"
    by (auto simp: statuses_def)
  then have "Suc (count_status ''new'' quotes + count_status ''reviewed'' quotes +
     count_status ''contacted'' quotes + count_status ''quoted'' quotes +
     count_status ''accepted'' quotes + count_status ''rejected'' quotes) =
     count_status ''new'' (q # quotes) + count_status ''reviewed'' (q # quotes) +
     count_status ''contacted'' (q # quotes) + count_status ''quoted'' (q # quotes) +
     count_status ''accepted'' (q # quotes) + count_status ''rejected'' (q # quotes)"
    by cases (simp_all add: count_status_def js_def)
  with Cons show ?case by simp
qed

lemma mset_sort_insert: "mset (sort_insert c x xs) = add_mset x (mset xs)"
  by (induction xs) simp_all

lemma mset_js_sort: "mset (js_sort c xs) = mset xs"
  by (induction xs) (simp_all add: mset_sort_insert)

lemma length_js_sort: "length (js_sort c xs) = length xs"
  using mset_js_sort [of c xs] by (metis size_mset)

text \<open>
  Claim C4. In every state of the file reached from the initial, empty file by any sequence
  of \<open>Create\<close>, \<open>UpdateStatus\<close> and \<open>Delete\<close> requests (whatever their environments and
  outcomes), \<open>Stats\<close> reports a total that is the sum of its six counts per status and
  the length of the array that \<open>List\<close> returns without filters, whatever the sort
  parameters.
\<close>

theorem stats_total:
  "\<exists>st listing.
     reply (get_stats (run ext rs initial_file)) = Statistics st \<and>
     reply (get_quotes ext \<lparr>q_status = None, q_projectType = None, q_sortBy = sb, q_order = od\<rparr>
              (run ext rs initial_file)) = Listing listing (length listing) \<and>
     total st = new st + reviewed st + contacted st + quoted st + accepted st + rejected st \<and>
     total st = length listing"
proof -
  let ?f = "run ext rs initial_file"
  have "\<forall>q \<in> set (stored initial_file). status q \<in> set statuses"
    by (simp add: initial_file_def)
  from count_statuses [OF run_statuses [OF this, of ext rs]]
  have "length (stored ?f) =
     count_status ''new'' (stored ?f) + count_status ''reviewed'' (stored ?f) +
     count_status ''contacted'' (stored ?f) + count_status ''quoted'' (stored ?f) +
     count_status ''accepted'' (stored ?f) + count_status ''rejected'' (stored ?f)" .
  then show ?thesis
    by (simp add: get_stats_def get_quotes_def readQuotes_stored Let_def length_js_sort)
qed

subsection \<open>The frame of the mutations\<close>











subsection \<open>Listing\<close>

lemma filter_wanted:
  "(if is_filter v then filter (\<lambda>q. Some (g q) = v) xs else xs) = filter (\<lambda>q. wanted v (g q)) xs"
  by (cases v) auto

lemma get_quotes_filtered:
  "get_quotes ext query f =
     \<lparr>reply = Listing
        (js_sort (compare_quotes ext
            (case q_sortBy query of None \<Rightarrow> js ''createdAt'' | Some v \<Rightarrow> v)
            (case q_order query of None \<Rightarrow> js ''desc'' | Some v \<Rightarrow> v))
          (filter (matching query) (stored f)))
        (length (filter (matching query) (stored f))),
      disk = f, notified = []\<rparr>"
proof -
  have "filter (\<lambda>q. wanted (q_projectType query) (projectType q))
          (filter (\<lambda>q. wanted (q_status query) (status q)) (stored f))
        = filter (matching query) (stored f)"
    by (simp add: matching_def conj_commute cong: filter_cong)
  then show ?thesis
    by (simp add: get_quotes_def readQuotes_stored Let_def filter_wanted length_js_sort)
qed

lemma js_sort_ties:
  assumes "\<And>a b. c a b = None"
  shows "js_sort c xs = xs"
proof (induction xs)
  case Nil
  then show ?case by simp
next
  case (Cons x xs)
  have "sort_insert c x xs = x # xs"
    by (cases xs) (simp_all add: sortCompare_def assms)
  with Cons show ?case by simp
qed

lemma new_Date_unknown:
  "key \<notin> set (map js quote_keys) \<Longrightarrow> new_Date ext a key = None"
  by (simp add: quote_keys_def new_Date_def)

lemma compare_unknown:
  "key \<notin> set (map js quote_keys) \<Longrightarrow> compare_quotes ext key order a b = None"
  by (simp add: compare_quotes_def new_Date_unknown Let_def)

lemma sort_insert_default:
  "sort_insert (compare_quotes ext (js ''createdAt'') (js ''desc'')) x ys
     = insort_key (\<lambda>q. - createdAt q) x ys"
  by (induction ys) (simp_all add: sortCompare_def compare_quotes_def new_Date_def)

lemma js_sort_default:
  "js_sort (compare_quotes ext (js ''createdAt'') (js ''desc'')) xs
     = sort_key (\<lambda>q. - createdAt q) xs"
  by (induction xs) (simp_all add: sort_insert_default sort_key_def)

lemma sorted_desc:
  "sorted (map (\<lambda>q. - createdAt q) xs) \<Longrightarrow> sorted_wrt (\<lambda>a b. createdAt b \<le> createdAt a) xs"
  by (induction xs) auto

text \<open>
  Claim C3. Without \<open>sortBy\<close> and \<open>order\<close> the listing is the selected records sorted
  by \<open>createdAt\<close>, newest first (records with equal \<open>createdAt\<close> keep their stored
  order). With a \<open>sortBy\<close> that is no property of a record every comparison is \<open>NaN\<close>,
  and the listing is the selected records in their stored order.
\<close>

theorem list_order:
  "(q_sortBy query = None \<and> q_order query = None \<longrightarrow>
      (\<exists>listing.
         reply (get_quotes ext query f) = Listing listing (length listing) \<and>
         listing = sort_key (\<lambda>q. - createdAt q) (filter (matching query) (stored f)) \<and>
         mset listing = mset (filter (matching query) (stored f)) \<and>
         sorted_wrt (\<lambda>a b. createdAt b \<le> createdAt a) listing \<and>
         (\<forall>t. filter (\<lambda>q. createdAt q = t) listing
               = filter (\<lambda>q. createdAt q = t) (filter (matching query) (stored f))))) \<and>
   (\<forall>key. q_sortBy query = Some key \<and> key \<notin> set (map js quote_keys) \<longrightarrow>
      reply (get_quotes ext query f)
        = Listing (filter (matching query) (stored f))
            (length (filter (matching query) (stored f))))"
proof (intro conjI impI allI)
  assume a: "q_sortBy query = None \<and> q_order query = None"
  let ?sel = "filter (matching query) (stored f)"
  let ?xs = "sort_key (\<lambda>q. - createdAt q) ?sel"
  from a have r: "reply (get_quotes ext query f) = Listing ?xs (length ?xs)"
    by (simp add: get_quotes_filtered js_sort_default)
  have s: "sorted_wrt (\<lambda>a b. createdAt b \<le> createdAt a) ?xs"
    by (rule sorted_desc) (rule sorted_sort_key)
  have st: "\<forall>t. filter (\<lambda>q. createdAt q = t) ?xs = filter (\<lambda>q. createdAt q = t) ?sel"
  proof
    fix t
    from sort_key_stable [of "\<lambda>q. - createdAt q" "- t" ?sel]
    show "filter (\<lambda>q. createdAt q = t) ?xs = filter (\<lambda>q. createdAt q = t) ?sel"
      by simp
  qed
  from r s st show "\<exists>listing.
         reply (get_quotes ext query f) = Listing listing (length listing) \<and>
         listing = sort_key (\<lambda>q. - createdAt q) (filter (matching query) (stored f)) \<and>
         mset listing = mset (filter (matching query) (stored f)) \<and>
         sorted_wrt (\<lambda>a b. createdAt b \<le> createdAt a) listing \<and>
         (\<forall>t. filter (\<lambda>q. createdAt q = t) listing
               = filter (\<lambda>q. createdAt q = t) (filter (matching query) (stored f)))"
    by simp
next
  fix key
  assume a: "q_sortBy query = Some key \<and> key \<notin> set (map js quote_keys)"
  then have "\<And>order a b. compare_quotes ext key order a b = None"
    by (simp add: compare_unknown)
  from js_sort_ties [of "compare_quotes ext key _", OF this] a
  show "reply (get_quotes ext query f)
        = Listing (filter (matching query) (stored f))
            (length (filter (matching query) (stored f)))"
    by (simp add: get_quotes_filtered)
qed

theorem list_order_witness:
  "reply (get_quotes example_ext
      \<lparr>q_status = None, q_projectType = None, q_sortBy = None, q_order = None\<rparr>
      (Holds [example_quote, example_quote2]))
     = Listing [example_quote2, example_quote] 2 \<and>
   reply (get_quotes example_ext
      \<lparr>q_status = None, q_projectType = None, q_sortBy = Some (js ''priority''), q_order = None\<rparr>
      (Holds [example_quote, example_quote2]))
     = Listing [example_quote, example_quote2] 2"
proof -
  let ?f = "Holds [example_quote, example_quote2]"
  let ?q1 = "\<lparr>q_status = None, q_projectType = None, q_sortBy = None, q_order = None\<rparr>"
  let ?q2 = "\<lparr>q_status = None, q_projectType = None, q_sortBy = Some (js ''priority''),
     q_order = None\<rparr>"
  have k: "js ''priority'' \<notin> set (map js quote_keys)"
    by (simp add: quote_keys_def js_def)
  have s1: "filter (matching ?q1) (stored ?f) = [example_quote, example_quote2]"
    by (simp add: matching_def)
  have s2: "filter (matching ?q2) (stored ?f) = [example_quote, example_quote2]"
    by (simp add: matching_def)
  have o: "sort_key (\<lambda>q. - createdAt q) [example_quote, example_quote2]
     = [example_quote2, example_quote]"
    by (simp add: sort_key_def example_quote_def example_quote2_def)
  have a: "q_sortBy ?q1 = None \<and> q_order ?q1 = None" by simp
  from list_order [of ?q1 example_ext ?f] a obtain listing where
    l: "reply (get_quotes example_ext ?q1 ?f) = Listing listing (length listing)"
      "listing = sort_key (\<lambda>q. - createdAt q) (filter (matching ?q1) (stored ?f))"
    by blast
  from l(2) have "listing = [example_quote2, example_quote]"
    unfolding s1 o .
  with l(1)
  have 1: "reply (get_quotes example_ext ?q1 ?f) = Listing [example_quote2, example_quote] 2"
    by simp
  have b: "q_sortBy ?q2 = Some (js ''priority'') \<and> js ''priority'' \<notin> set (map js quote_keys)"
    using k by simp
  from list_order [of ?q2 example_ext ?f] b
  have "reply (get_quotes example_ext ?q2 ?f)
     = Listing (filter (matching ?q2) (stored ?f)) (length (filter (matching ?q2) (stored ?f)))"
    by blast
  then have 2: "reply (get_quotes example_ext ?q2 ?f) = Listing [example_quote, example_quote2] 2"
    unfolding s2 by simp
  from 1 2 show ?thesis by simp
qed

text \<open>
  Claim C6. For any collection and any query, the listing holds exactly the stored records
  that meet both filters, each as often as it is stored: a record is listed if and only if
  it is stored and its \<open>status\<close> and \<open>projectType\<close> are wanted. An omitted filter and the
  value \<open>all\<close> want every value (as does the empty string, which JavaScript takes for
  omitted); any other filter value wants exactly the fields equal to it.
\<close>

theorem list_filters:
  "(\<exists>listing.
      reply (get_quotes ext query f) = Listing listing (length listing) \<and>
      mset listing = mset (filter (matching query) (stored f)) \<and>
      (\<forall>q. q \<in> set listing \<longleftrightarrow>
         q \<in> set (stored f) \<and> wanted (q_status query) (status q) \<and>
         wanted (q_projectType query) (projectType q))) \<and>
   (\<forall>x. wanted None x) \<and>
   (\<forall>x. wanted (Some (js ''all'')) x) \<and>
   (\<forall>v x. v \<noteq> [] \<and> v \<noteq> js ''all'' \<longrightarrow> wanted (Some v) x = (x = v))"
proof -
  let ?c = "compare_quotes ext
            (case q_sortBy query of None \<Rightarrow> js ''createdAt'' | Some v \<Rightarrow> v)
            (case q_order query of None \<Rightarrow> js ''desc'' | Some v \<Rightarrow> v)"
  let ?xs = "js_sort ?c (filter (matching query) (stored f))"
  have r: "reply (get_quotes ext query f) = Listing ?xs (length ?xs)"
    by (simp add: get_quotes_filtered length_js_sort)
  have m: "mset ?xs = mset (filter (matching query) (stored f))"
    by (rule mset_js_sort)
  then have "set ?xs = set (filter (matching query) (stored f))"
    by (rule mset_eq_setD)
  then have "\<forall>q. q \<in> set ?xs \<longleftrightarrow>
        q \<in> set (stored f) \<and> wanted (q_status query) (status q) \<and>
        wanted (q_projectType query) (projectType q)"
    by (simp add: matching_def)
  with r m have "\<exists>listing.
      reply (get_quotes ext query f) = Listing listing (length listing) \<and>
      mset listing = mset (filter (matching query) (stored f)) \<and>
      (\<forall>q. q \<in> set listing \<longleftrightarrow>
         q \<in> set (stored f) \<and> wanted (q_status query) (status q) \<and>
         wanted (q_projectType query) (projectType q))"
    by blast
  then show ?thesis by simp
qed

theorem list_filters_witness:
  "reply (get_quotes example_ext
      \<lparr>q_status = Some (js ''new''), q_projectType = None, q_sortBy = None, q_order = None\<rparr>
      (Holds [example_quote, example_quote2]))
     = Listing [example_quote] 1 \<and>
   wanted (Some (js ''new'')) (status example_quote) \<and>
   \<not> wanted (Some (js ''new'')) (status example_quote2)"
proof -
  let ?f = "Holds [example_quote, example_quote2]"
  let ?q = "\<lparr>q_status = Some (js ''new''), q_projectType = None, q_sortBy = None,
     q_order = None\<rparr>"
  have n: "js ''new'' \<noteq> [] \<and> js ''new'' \<noteq> js ''all''"
    by (simp add: js_def)
  note t = list_filters [of example_ext ?q ?f]
  from t n have w: "\<And>x. wanted (Some (js ''new'')) x = (x = js ''new'')"
    by blast
  have w1: "wanted (Some (js ''new'')) (status example_quote)"
    unfolding w by (simp add: example_quote_def)
  have w2: "\<not> wanted (Some (js ''new'')) (status example_quote2)"
    unfolding w by (simp add: example_quote2_def js_def)
  from w1 w2 have sel: "filter (matching ?q) (stored ?f) = [example_quote]"
    by (simp add: matching_def)
  from t obtain listing where
    l: "reply (get_quotes example_ext ?q ?f) = Listing listing (length listing)"
      "mset listing = mset (filter (matching ?q) (stored ?f))"
    by blast
  from l(2) have "listing = [example_quote]"
    unfolding sel by simp
  with l(1) w1 w2 show ?thesis by simp
qed

subsection \<open>Creation followed by lookup\<close>

text \<open>
  Claim C1, as amended. For a submission that passes validation, when the write succeeds
  and the generated id is not yet in the store, \<open>Create\<close> answers with that id (201) and
  \<open>Get\<close> with it returns the record whose contact and project fields are the
  \<^emph>\<open>sanitized\<close> submission (every field trimmed, the email also normalized, an absent
  company stored as the empty string), and whose other fields are the id, the status
  \<open>new\<close> and the two clock readings.
\<close>

theorem create_then_get:
  assumes "snd (validateQuote ext body) = []" and "disk_ok w"
    and "uuid w \<notin> quote_id ` set (stored f)"
  shows "reply (post_quotes ext w body f) = Created (uuid w) \<and>
     http_status (reply (post_quotes ext w body f)) = 201 \<and>
     reply (get_quote (uuid w) (disk (post_quotes ext w body f))) =
       Found \<lparr>quote_id = uuid w,
              name = trim (req_name body),
              email = normalizeEmail ext (trim (req_email body)),
              phone = trim (req_phone body),
              company = (case req_company body of None \<Rightarrow> [] | Some c \<Rightarrow> trim c),
              projectType = trim (req_projectType body),
              budget = trim (req_budget body),
              timeline = trim (req_timeline body),
              description = trim (req_description body),
              status = js ''new'',
              createdAt = clock1 w,
              updatedAt = clock2 w\<rparr>"
proof -
  let ?q = "newQuote w (fst (validateQuote ext body))"
  have q: "?q = \<lparr>quote_id = uuid w,
              name = trim (req_name body),
              email = normalizeEmail ext (trim (req_email body)),
              phone = trim (req_phone body),
              company = (case req_company body of None \<Rightarrow> [] | Some c \<Rightarrow> trim c),
              projectType = trim (req_projectType body),
              budget = trim (req_budget body),
              timeline = trim (req_timeline body),
              description = trim (req_description body),
              status = js ''new'',
              createdAt = clock1 w,
              updatedAt = clock2 w\<rparr>"
    by (cases "req_company body") (simp_all add: newQuote_def validateQuote_fst)
  have "quote_id ?q = uuid w" by (simp add: newQuote_def)
  from find_appended [OF assms(3) this]
  have "get_quote (uuid w) (Holds (stored f @ [?q])) = \<lparr>reply = Found ?q, disk = Holds (stored f @ [?q]), notified = []\<rparr>"
    by (simp add: get_quote_def readQuotes_stored)
  with post_quotes_created [OF assms(1,2), of f] q show ?thesis by simp
qed

lemma trim_padded: "trim (js ''Jane Roe '') = js ''Jane Roe''"
  by (simp add: trim_def js_def is_space_def)

lemma padded_submission_valid:
  "validateQuote example_ext (example_submission\<lparr>req_name := js ''Jane Roe ''\<rparr>)
     = (example_submission, [])"
  by (simp add: validateQuote_def example_submission_def example_ext_def Let_def
      trim_js_examples trim_padded check_def isIn_def matches_name_def)
    (simp add: js_def is_letter_def is_space_def)

theorem create_then_get_witness:
  "reply (post_quotes example_ext example_world example_submission initial_file)
     = Created (js ''id-1'') \<and>
   reply (get_quote (js ''id-1'')
       (disk (post_quotes example_ext example_world example_submission initial_file)))
     = Found example_quote"
proof -
  have v: "snd (validateQuote example_ext example_submission) = []"
    by (simp add: example_submission_valid)
  have ok: "disk_ok example_world" by (simp add: example_world_def)
  have fresh: "uuid example_world \<notin> quote_id ` set (stored initial_file)"
    by (simp add: initial_file_def)
  have u: "uuid example_world = js ''id-1''" by (simp add: example_world_def)
  have q: "\<lparr>quote_id = uuid example_world,
              name = trim (req_name example_submission),
              email = normalizeEmail example_ext (trim (req_email example_submission)),
              phone = trim (req_phone example_submission),
              company = (case req_company example_submission of None \<Rightarrow> [] | Some c \<Rightarrow> trim c),
              projectType = trim (req_projectType example_submission),
              budget = trim (req_budget example_submission),
              timeline = trim (req_timeline example_submission),
              description = trim (req_description example_submission),
              status = js ''new'',
              createdAt = clock1 example_world,
              updatedAt = clock2 example_world\<rparr> = example_quote"
    by (simp add: example_submission_def example_world_def example_ext_def example_quote_def
        trim_js_examples)
  note t = create_then_get [OF v ok fresh, unfolded q, unfolded u]
  then show ?thesis by simp
qed

text \<open>
  Claim C1 as first stated, with the stored fields equal to those submitted, fails for a
  name with a trailing space: the submission is valid, and the record that \<open>Get\<close>
  returns has the trimmed name.
\<close>

theorem create_then_get_counterexample:
  "snd (validateQuote example_ext (example_submission\<lparr>req_name := js ''Jane Roe ''\<rparr>)) = [] \<and>
   reply (post_quotes example_ext example_world
            (example_submission\<lparr>req_name := js ''Jane Roe ''\<rparr>) initial_file)
     = Created (js ''id-1'') \<and>
   reply (get_quote (js ''id-1'')
       (disk (post_quotes example_ext example_world
            (example_submission\<lparr>req_name := js ''Jane Roe ''\<rparr>) initial_file)))
     = Found example_quote \<and>
   name example_quote \<noteq> req_name (example_submission\<lparr>req_name := js ''Jane Roe ''\<rparr>)"
proof -
  let ?b = "example_submission\<lparr>req_name := js ''Jane Roe ''\<rparr>"
  have v: "snd (validateQuote example_ext ?b) = []"
    by (simp add: padded_submission_valid)
  have ok: "disk_ok example_world" by (simp add: example_world_def)
  have p: "post_quotes example_ext example_world ?b initial_file =
     \<lparr>reply = Created (js ''id-1''), disk = Holds [example_quote], notified = [example_quote]\<rparr>"
  proof -
    have u: "uuid example_world = js ''id-1''" by (simp add: example_world_def)
    from post_quotes_created [OF v ok, of initial_file] show ?thesis
      by (simp add: padded_submission_valid example_newQuote initial_file_def u)
  qed
  have g: "get_quote (js ''id-1'') (Holds [example_quote]) =
     \<lparr>reply = Found example_quote, disk = Holds [example_quote], notified = []\<rparr>"
    by (simp add: get_quote_def readQuotes_stored example_quote_def)
  have n: "name example_quote \<noteq> req_name ?b"
    by (simp add: example_quote_def js_def)
  from v p g n show ?thesis by simp
qed

end
